theory Spec2Isabelle
  imports Complex_Main "HOL-Library.Sublist" "HOL-Library.Multiset"
begin

section \<open>Single-precision arithmetic\<close>

text \<open>
  The script computes on \<^verbatim>\<open>tf.float32\<close> tensors, and the resize kernel of the library
  computes its source indices in \<^verbatim>\<open>float\<close>. A float32 value is modelled by the real it
  denotes, and every arithmetic operation is the exact operation followed by
  \<open>float32\<close>, the IEEE 754 rounding to the nearest value with a 24-bit significand,
  ties to the even significand. Exponents below -126 give the subnormal spacing
  \<open>2 powr - 149\<close>. Overflow to infinity (magnitudes from \<open>2 powr 128\<close> on) is outside the
  model; no value of the script comes near it.
\<close>

definition round_half_even :: "real \<Rightarrow> int" where
  "round_half_even x =
     (let f = \<lfloor>x\<rfloor>; d = x - of_int f
      in if d < 1 / 2 then f else if 1 / 2 < d then f + 1 else if even f then f else f + 1)"

definition float32_exponent :: "real \<Rightarrow> int" where
  "float32_exponent x = max \<lfloor>log 2 \<bar>x\<bar>\<rfloor> (- 126)"

definition float32 :: "real \<Rightarrow> real" where
  "float32 x =
     (if x = 0 then 0
      else of_int (round_half_even (x / 2 powr of_int (float32_exponent x - 23)))
             * 2 powr of_int (float32_exponent x - 23))"

section \<open>Tensors and errors\<close>

text \<open>
  The training script \<^verbatim>\<open>model_training.py\<close> works on image tensors of shape
  (H, W, C). An image is a list of rows, a row a list of pixels, a pixel the list of
  its channel values; a batch (a 4-D tensor) is a list of images. The values are
  polymorphic where the script only moves them around (resize, crop, flip) and real
  where it computes with them, every operation rounded by \<open>float32\<close>.
  Every exception the script can raise is a value of \<open>tf_error\<close>, returned as
  \<open>Inl\<close>.
\<close>

type_synonym 'a image = "'a list list list"

type_synonym 'a tensor4 = "'a image list"

datatype tf_error =
    NotFoundError string
  | DecodeError
  | InvalidArgumentError
  | StopIteration

definition bind_err :: "tf_error + 'a \<Rightarrow> ('a \<Rightarrow> tf_error + 'b) \<Rightarrow> tf_error + 'b" where
  "bind_err r f = (case r of Inl e \<Rightarrow> Inl e | Inr x \<Rightarrow> f x)"

definition height :: "'a image \<Rightarrow> nat" where
  "height img = length img"

definition width :: "'a image \<Rightarrow> nat" where
  "width img = (case img of [] \<Rightarrow> 0 | row # _ \<Rightarrow> length row)"

definition channels :: "'a image \<Rightarrow> nat" where
  "channels img = (case img of [] \<Rightarrow> 0 | row # _ \<Rightarrow> (case row of [] \<Rightarrow> 0 | px # _ \<Rightarrow> length px))"

definition shape3 :: "'a image \<Rightarrow> nat \<times> nat \<times> nat" where
  "shape3 img = (height img, width img, channels img)"

text \<open>A well-formed tensor of shape (h, w, c): every row has w pixels of c channels.\<close>

definition is_image :: "nat \<Rightarrow> nat \<Rightarrow> nat \<Rightarrow> 'a image \<Rightarrow> bool" where
  "is_image h w c img =
     (length img = h \<and> list_all (\<lambda>row. length row = w \<and> list_all (\<lambda>px. length px = c) row) img)"

definition map_image :: "('a \<Rightarrow> 'b) \<Rightarrow> 'a image \<Rightarrow> 'b image" where
  "map_image f img = map (map (map f)) img"

definition pixel_values :: "'a image \<Rightarrow> 'a set" where
  "pixel_values img = set (concat (concat img))"

section \<open>Augmentation pipeline\<close>

definition IMG_WIDTH :: nat where
  "IMG_WIDTH = 512"

definition IMG_HEIGHT :: nat where
  "IMG_HEIGHT = 512"

subsection \<open>Library operations used by the pipeline\<close>

text \<open>
  \<^verbatim>\<open>tf.image.resize(img, [height, width], method=NEAREST_NEIGHBOR)\<close> runs the
  nearest-neighbour kernel with half-pixel centres. The kernel works in \<^verbatim>\<open>float\<close>: the
  scale is \<^verbatim>\<open>in_size / static_cast<float>(out_size)\<close>, and output coordinate \<open>i\<close> reads
  the input at \<^verbatim>\<open>min(floorf((static_cast<float>(i) + 0.5f) * scale), in_size - 1)\<close>.
  No value is interpolated. An input with a dimension of size zero and an output of
  zero size are rejected.
\<close>

definition resize_scale :: "nat \<Rightarrow> nat \<Rightarrow> real" where
  "resize_scale in_size out_size = float32 (float32 (real in_size) / float32 (real out_size))"

definition nn_index :: "nat \<Rightarrow> nat \<Rightarrow> nat \<Rightarrow> nat" where
  "nn_index in_size out_size i =
     min (nat \<lfloor>float32 (float32 (float32 (real i) + 1 / 2) * resize_scale in_size out_size)\<rfloor>)
         (in_size - 1)"

definition resize_nearest :: "nat \<Rightarrow> nat \<Rightarrow> 'a image \<Rightarrow> tf_error + 'a image" where
  "resize_nearest h w img =
     (if height img = 0 \<or> width img = 0 \<or> channels img = 0 \<or> h = 0 \<or> w = 0
      then Inl InvalidArgumentError
      else Inr (map (\<lambda>y. map (\<lambda>x. img ! nn_index (height img) h y ! nn_index (width img) w x)
                              [0..<w])
                    [0..<h]))"

text \<open>\<^verbatim>\<open>tf.stack(imgs, axis=0)\<close>: all operands must have one shape.\<close>

definition tf_stack :: "'a image list \<Rightarrow> tf_error + 'a tensor4" where
  "tf_stack imgs =
     (if list_all (\<lambda>i. shape3 i = shape3 (hd imgs)) imgs then Inr imgs
      else Inl InvalidArgumentError)"

definition shape4 :: "'a tensor4 \<Rightarrow> nat \<times> nat \<times> nat \<times> nat" where
  "shape4 t = (length t, (case t of [] \<Rightarrow> (0, 0, 0) | i # _ \<Rightarrow> shape3 i))"

text \<open>\<^verbatim>\<open>tf.slice(value, offset, size)\<close> on a 4-D tensor.\<close>

definition slice3 :: "nat \<times> nat \<times> nat \<Rightarrow> nat \<times> nat \<times> nat \<Rightarrow> 'a image \<Rightarrow> 'a image" where
  "slice3 off sz img =
     (case (off, sz) of ((oy, ox, oc), (h, w, c)) \<Rightarrow>
        map (\<lambda>row. map (\<lambda>px. take c (drop oc px)) (take w (drop ox row))) (take h (drop oy img)))"

definition slice4 :: "nat \<times> nat \<times> nat \<times> nat \<Rightarrow> nat \<times> nat \<times> nat \<times> nat \<Rightarrow> 'a tensor4 \<Rightarrow> 'a tensor4" where
  "slice4 off sz t =
     (case (off, sz) of ((ob, off3), (n, sz3)) \<Rightarrow> map (slice3 off3 sz3) (take n (drop ob t)))"

text \<open>
  \<^verbatim>\<open>tf.image.random_crop(value, size)\<close>: asserts \<open>shape \<ge> size\<close> in every dimension,
  draws one uniform integer per dimension, reduces it modulo \<open>shape - size + 1\<close> and
  slices the whole tensor at that single offset. The four raw draws are an argument.
\<close>

definition tf_random_crop ::
  "nat \<times> nat \<times> nat \<times> nat \<Rightarrow> 'a tensor4 \<Rightarrow> nat \<times> nat \<times> nat \<times> nat \<Rightarrow> tf_error + 'a tensor4" where
  "tf_random_crop draws t sz =
     (case (draws, shape4 t, sz) of ((d0, d1, d2, d3), (N, H, W, C), (n, h, w, c)) \<Rightarrow>
        if n \<le> N \<and> h \<le> H \<and> w \<le> W \<and> c \<le> C
        then Inr (slice4 (d0 mod (N - n + 1), d1 mod (H - h + 1), d2 mod (W - w + 1), d3 mod (C - c + 1))
                         sz t)
        else Inl InvalidArgumentError)"

text \<open>\<^verbatim>\<open>tf.image.flip_left_right\<close>: every row is reversed.\<close>

definition flip_left_right :: "'a image \<Rightarrow> 'a image" where
  "flip_left_right img = map rev img"

subsection \<open>The script's augmentation functions\<close>

definition resize :: "'a image \<Rightarrow> 'a image \<Rightarrow> nat \<Rightarrow> nat \<Rightarrow> tf_error + ('a image \<times> 'a image)" where
  "resize input_image real_image h w =
     bind_err (resize_nearest h w input_image) (\<lambda>input_image'.
     bind_err (resize_nearest h w real_image) (\<lambda>real_image'.
     Inr (input_image', real_image')))"

definition random_crop ::
  "nat \<times> nat \<times> nat \<times> nat \<Rightarrow> 'a image \<Rightarrow> 'a image \<Rightarrow> tf_error + ('a image \<times> 'a image)" where
  "random_crop draws input_image real_image =
     bind_err (tf_stack [input_image, real_image]) (\<lambda>stacked_image.
     bind_err (tf_random_crop draws stacked_image (2, IMG_HEIGHT, IMG_WIDTH, 3)) (\<lambda>cropped_image.
     Inr (cropped_image ! 0, cropped_image ! 1)))"

text \<open>
  Normalizing the images to [-1, 1]: \<^verbatim>\<open>(x / 127.5) - 1\<close> on a float32 tensor, a float32
  division followed by a float32 subtraction.
\<close>

definition normalize_value :: "real \<Rightarrow> real" where
  "normalize_value x = float32 (float32 (x / 127.5) - 1)"

definition normalize :: "real image \<Rightarrow> real image \<Rightarrow> real image \<times> real image" where
  "normalize input_image real_image =
     (map_image normalize_value input_image, map_image normalize_value real_image)"

text \<open>
  The random draws of one call of \<^verbatim>\<open>random_jitter\<close>: the four integers of the
  crop and the scalar of \<^verbatim>\<open>tf.random.uniform(())\<close>, a real in [0, 1).
\<close>

record jitter_draws =
  crop_draws :: "nat \<times> nat \<times> nat \<times> nat"
  flip_draw :: real

definition random_jitter ::
  "jitter_draws \<Rightarrow> 'a image \<Rightarrow> 'a image \<Rightarrow> tf_error + ('a image \<times> 'a image)" where
  "random_jitter rnd input_image real_image =
     bind_err (resize input_image real_image 542 542) (\<lambda>(input_image, real_image).
     bind_err (random_crop (crop_draws rnd) input_image real_image) (\<lambda>(input_image, real_image).
     if flip_draw rnd > 0.5
     then Inr (flip_left_right input_image, flip_left_right real_image)
     else Inr (input_image, real_image)))"

text \<open>
  Modelled from the spec: the inverse of the normalization, \<open>(x + 1) * 127.5\<close>, which
  the script itself never computes; here on float32 like the normalization, an
  addition followed by a multiplication. Two images are close within \<open>tol\<close> when they
  have one shape and every pair of corresponding values differs by at most \<open>tol\<close>.
\<close>

definition denormalize_spec :: "real \<Rightarrow> real" where
  "denormalize_spec x = float32 (float32 (x + 1) * 127.5)"

definition close_images :: "real \<Rightarrow> real image \<Rightarrow> real image \<Rightarrow> bool" where
  "close_images tol a b = list_all2 (list_all2 (list_all2 (\<lambda>x y. \<bar>x - y\<bar> \<le> tol))) a b"

text \<open>
  Modelled from the spec: one geometric transform, written for a single image and
  determined by the draws of one call alone: nearest-neighbour resize to 542 x 542,
  crop of 512 x 512 x 3 at the offset \<open>(d1 mod 31, d2 mod 31)\<close>, horizontal flip when
  the flip draw exceeds 0.5.
\<close>

definition jitter_one_spec :: "jitter_draws \<Rightarrow> 'a image \<Rightarrow> 'a image" where
  "jitter_one_spec rnd img =
     (case crop_draws rnd of (d0, d1, d2, d3) \<Rightarrow>
        let resized = map (\<lambda>y. map (\<lambda>x. img ! nn_index (height img) 542 y ! nn_index (width img) 542 x)
                                    [0..<542]) [0..<542];
            cropped = slice3 (d1 mod 31, d2 mod 31, 0) (512, 512, 3) resized
        in if flip_draw rnd > 0.5 then flip_left_right cropped else cropped)"

section \<open>Image pair loader\<close>

text \<open>
  Python's \<^verbatim>\<open>str.replace(old, new)\<close>: every non-overlapping occurrence of \<open>old\<close>, found
  from left to right, is replaced by \<open>new\<close>. (For an empty \<open>old\<close>, \<open>new\<close> is inserted
  before every character and at the end.)
\<close>

function str_replace :: "string \<Rightarrow> string \<Rightarrow> string \<Rightarrow> string" where
  "str_replace old new s =
     (if old = [] then new @ concat (map (\<lambda>c. c # new) s)
      else if s = [] then []
      else if prefix old s then new @ str_replace old new (drop (length old) s)
      else hd s # str_replace old new (tl s))"
  by pat_completeness auto
termination
  by (relation "measure (\<lambda>(old, new, s). length s)") auto

declare str_replace.simps [simp del]

text \<open>
  The path of the target image, as \<^verbatim>\<open>load\<close> derives it from the path of the input
  image: \<^verbatim>\<open>path.replace('input', 'output')\<close>, then \<^verbatim>\<open>path.replace('jpg', 'png')\<close>.
\<close>

definition target_path :: "string \<Rightarrow> string" where
  "target_path path = str_replace ''jpg'' ''png'' (str_replace ''input'' ''output'' path)"


text \<open>
  Files are their contents, a list of bytes, and the file system maps the paths that
  name a file to its contents. \<^verbatim>\<open>tf.io.read_file\<close> raises \<^verbatim>\<open>NotFoundError\<close> for a path
  that names no file.
\<close>

type_synonym bytes = "nat list"

type_synonym filesystem = "string \<rightharpoonup> bytes"

definition read_file :: "filesystem \<Rightarrow> string \<Rightarrow> tf_error + bytes" where
  "read_file fs filename = (case fs filename of None \<Rightarrow> Inl (NotFoundError filename) | Some contents \<Rightarrow> Inr contents)"

text \<open>
  The decoders of the library are parameters: \<^verbatim>\<open>tf.image.decode_jpeg\<close> and
  \<^verbatim>\<open>tf.image.decode_png\<close> map the contents of a file to a \<^verbatim>\<open>uint8\<close> tensor of shape
  (H, W, C), or raise. Which contents each of them accepts is the library's affair.
  \<^verbatim>\<open>tf.py_function\<close> turns an exception of the wrapped Python function into the error
  the dataset iterator raises; that conversion is a parameter too.
\<close>

record tf_ops =
  decode_jpeg :: "bytes \<Rightarrow> tf_error + nat image"
  decode_png :: "bytes \<Rightarrow> tf_error + nat image"
  py_function_error :: "tf_error \<Rightarrow> tf_error"

definition cast_float32 :: "nat image \<Rightarrow> real image" where
  "cast_float32 img = map_image (\<lambda>v. float32 (real v)) img"

definition load :: "tf_ops \<Rightarrow> filesystem \<Rightarrow> string \<Rightarrow> tf_error + (real image \<times> real image)" where
  "load tf fs image_file =
     bind_err (read_file fs image_file) (\<lambda>input_image.
     bind_err (decode_jpeg tf input_image) (\<lambda>input_image.
     let input_image = cast_float32 input_image;
         path = target_path image_file
     in bind_err (read_file fs path) (\<lambda>image_output.
        bind_err (decode_jpeg tf image_output) (\<lambda>image_output.
        let image_output = cast_float32 image_output
        in Inr (input_image, image_output)))))"

definition load_image_train ::
  "tf_ops \<Rightarrow> filesystem \<Rightarrow> jitter_draws \<Rightarrow> string \<Rightarrow> tf_error + (real image \<times> real image)" where
  "load_image_train tf fs rnd image_file =
     bind_err (load tf fs image_file) (\<lambda>(input_image, real_image).
     bind_err (random_jitter rnd input_image real_image) (\<lambda>(input_image, real_image).
     Inr (normalize input_image real_image)))"

definition load_image_test :: "tf_ops \<Rightarrow> filesystem \<Rightarrow> string \<Rightarrow> tf_error + (real image \<times> real image)" where
  "load_image_test tf fs image_file =
     bind_err (load tf fs image_file) (\<lambda>(input_image, real_image).
     bind_err (resize input_image real_image IMG_HEIGHT IMG_WIDTH) (\<lambda>(input_image, real_image).
     Inr (normalize input_image real_image)))"

section \<open>Training\<close>

text \<open>
  The generator and the discriminator are Keras models built by modules that are not
  part of the script, and so are the two loss functions; the script only calls them.
  They are parameters, as are automatic differentiation and the update rule of the
  optimizers. The variables of the models live in one store. A model call takes
  its \<^verbatim>\<open>training\<close> flag, the list of its input tensors and the store, and returns its
  output with the store it leaves (a call in training mode may update statistics
  that are not trainable). \<^verbatim>\<open>tape.gradient(loss, variables)\<close> differentiates the taped
  computation of the loss, a function of the store, with respect to the listed
  variables, at the store the computation started from.
\<close>

type_synonym var = nat

type_synonym store = "var \<Rightarrow> real"

type_synonym batch = "real tensor4"

datatype model_id = Generator | Discriminator

text \<open>What a run does besides updating the variables is recorded, in order, as events.\<close>

datatype event =
    ModelCall model_id bool
  | ApplyGradients model_id
  | SummaryScalar string real nat
  | PrintStep nat
  | ClearOutput
  | PrintTimeTaken
  | Plot "real image list"
  | PrintStepK nat
  | PrintDot
  | CheckpointSave

record 'o train_env =
  model :: "model_id \<Rightarrow> bool \<Rightarrow> batch list \<Rightarrow> store \<Rightarrow> batch \<times> store"
  trainable_variables :: "model_id \<Rightarrow> var list"
  generator_loss :: "batch \<Rightarrow> batch \<Rightarrow> batch \<Rightarrow> real \<times> real \<times> real"
  discriminator_loss :: "batch \<Rightarrow> batch \<Rightarrow> real"
  tape_gradient :: "(store \<Rightarrow> real) \<Rightarrow> var list \<Rightarrow> store \<Rightarrow> real list"
  optimizer_step :: "'o \<Rightarrow> var \<Rightarrow> real \<Rightarrow> real \<Rightarrow> real"
  optimizer_advance :: "'o \<Rightarrow> (real \<times> var) list \<Rightarrow> 'o"

record 'o train_state =
  variables :: store
  optimizers :: "model_id \<Rightarrow> 'o"
  trace :: "event list"

definition log_event :: "event list \<Rightarrow> 'o train_state \<Rightarrow> 'o train_state" where
  "log_event evs s = s\<lparr>trace := trace s @ evs\<rparr>"

text \<open>
  The computation under the two gradient tapes of \<^verbatim>\<open>train_step\<close>: the three model
  calls, all with \<^verbatim>\<open>training=True\<close>, and the two losses.
\<close>

definition forward ::
  "'o train_env \<Rightarrow> batch \<Rightarrow> batch \<Rightarrow> store \<Rightarrow> ((real \<times> real \<times> real) \<times> real) \<times> store" where
  "forward env input_image target st =
     (let (gen_output, st) = model env Generator True [input_image] st;
          (disc_real_output, st) = model env Discriminator True [input_image, target] st;
          (disc_generated_output, st) = model env Discriminator True [input_image, gen_output] st
      in ((generator_loss env disc_generated_output gen_output target,
           discriminator_loss env disc_real_output disc_generated_output), st))"

text \<open>
  \<^verbatim>\<open>optimizer.apply_gradients(zip(gradients, variables))\<close>: every listed variable is
  assigned the value the optimizer computes from its gradient, and the optimizer
  advances its own state.
\<close>

definition apply_gradients ::
  "'o train_env \<Rightarrow> model_id \<Rightarrow> (real \<times> var) list \<Rightarrow> 'o train_state \<Rightarrow> 'o train_state" where
  "apply_gradients env opt grads_and_vars s =
     s\<lparr>variables := fold (\<lambda>(g, v) st. st(v := optimizer_step env (optimizers s opt) v g (st v)))
                          grads_and_vars (variables s),
       optimizers := (optimizers s)(opt := optimizer_advance env (optimizers s opt) grads_and_vars),
       trace := trace s @ [ApplyGradients opt]\<rparr>"

definition train_step :: "'o train_env \<Rightarrow> batch \<Rightarrow> batch \<Rightarrow> nat \<Rightarrow> 'o train_state \<Rightarrow> 'o train_state" where
  "train_step env input_image target step s =
     (let st = variables s;
          (((gen_total_loss, gen_gan_loss, gen_l1_loss), disc_loss), st') = forward env input_image target st;
          s = log_event [ModelCall Generator True, ModelCall Discriminator True, ModelCall Discriminator True]
                (s\<lparr>variables := st'\<rparr>);
          generator_gradients =
            tape_gradient env (\<lambda>st. fst (fst (fst (forward env input_image target st))))
              (trainable_variables env Generator) st;
          discriminator_gradients =
            tape_gradient env (\<lambda>st. snd (fst (forward env input_image target st)))
              (trainable_variables env Discriminator) st;
          s = apply_gradients env Generator (zip generator_gradients (trainable_variables env Generator)) s;
          s = apply_gradients env Discriminator
                (zip discriminator_gradients (trainable_variables env Discriminator)) s
      in log_event [SummaryScalar ''gen_total_loss'' gen_total_loss (step div 1000),
                    SummaryScalar ''gen_gan_loss'' gen_gan_loss (step div 1000),
                    SummaryScalar ''gen_l1_loss'' gen_l1_loss (step div 1000),
                    SummaryScalar ''disc_loss'' disc_loss (step div 1000)] s)"

text \<open>
  Indexing a tensor along its first axis raises when the index is out of range. A
  function that can raise returns the error, if any, with the state it has reached.
\<close>

definition tensor_index :: "'a list \<Rightarrow> nat \<Rightarrow> tf_error + 'a" where
  "tensor_index t i = (if i < length t then Inr (t ! i) else Inl InvalidArgumentError)"

definition generate_images ::
  "'o train_env \<Rightarrow> model_id \<Rightarrow> batch \<Rightarrow> batch \<Rightarrow> 'o train_state \<Rightarrow> tf_error option \<times> 'o train_state" where
  "generate_images env m test_input tar s =
     (let (prediction, st) = model env m True [test_input] (variables s);
          s = log_event [ModelCall m True] (s\<lparr>variables := st\<rparr>)
      in case bind_err (tensor_index test_input 0) (\<lambda>a.
              bind_err (tensor_index tar 0) (\<lambda>b.
              bind_err (tensor_index prediction 0) (\<lambda>c. Inr [a, b, c]))) of
           Inl e \<Rightarrow> (Some e, s)
         | Inr display_list \<Rightarrow>
             (None, log_event [Plot (map (map_image (\<lambda>v. float32 (float32 (v * 0.5) + 0.5))) display_list)] s))"

text \<open>
  A dataset gives, for every iteration over it (numbered from 0), the sequence of its
  elements; an element is a value, or the error the iterator raises in its place.
  \<^verbatim>\<open>repeat()\<close> chains the iterations, and ends at an iteration that has no element.
\<close>

type_synonym 'a dataset = "nat \<Rightarrow> (tf_error + 'a) list"

function repeat_from :: "'a dataset \<Rightarrow> nat \<Rightarrow> nat \<Rightarrow> (tf_error + 'a) option" where
  "repeat_from ds epoch k =
     (if ds epoch = [] then None
      else if k < length (ds epoch) then Some (ds epoch ! k)
      else repeat_from ds (Suc epoch) (k - length (ds epoch)))"
  by pat_completeness auto
termination
proof (relation "measure (\<lambda>(ds, epoch, k). k)")
  show "wf (measure (\<lambda>(ds :: 'a dataset, epoch :: nat, k :: nat). k))"
    by simp
next
  fix ds :: "'a dataset" and epoch k :: nat
  assume "ds epoch \<noteq> []" "\<not> k < length (ds epoch)"
  then have "0 < length (ds epoch)" "length (ds epoch) \<le> k"
    by simp_all
  then have "k - length (ds epoch) < k"
    by linarith
  then show "((ds, Suc epoch, k - length (ds epoch)), (ds, epoch, k)) \<in> measure (\<lambda>(ds, epoch, k). k)"
    by simp
qed

declare repeat_from.simps [simp del]

text \<open>The body of the loop of \<^verbatim>\<open>fit\<close>, for one step and the element of that step.\<close>

definition fit_body ::
  "'o train_env \<Rightarrow> batch \<times> batch \<Rightarrow> nat \<Rightarrow> batch \<Rightarrow> batch \<Rightarrow> 'o train_state
     \<Rightarrow> tf_error option \<times> 'o train_state" where
  "fit_body env example step input_image target s =
     (let s = log_event [PrintStep step] s;
          (err, s) =
            (if step mod 1000 = 0
             then (let s = log_event [ClearOutput] s;
                       s = (if step \<noteq> 0 then log_event [PrintTimeTaken] s else s);
                       (err, s) = generate_images env Generator (fst example) (snd example) s
                   in case err of
                        Some e \<Rightarrow> (Some e, s)
                      | None \<Rightarrow> (None, log_event [PrintStepK (step div 1000)] s))
             else (None, s))
      in case err of
           Some e \<Rightarrow> (Some e, s)
         | None \<Rightarrow>
             (let s = train_step env input_image target step s;
                  s = (if (step + 1) mod 10 = 0 then log_event [PrintDot] s else s);
                  s = (if (step + 1) mod 5000 = 0 then log_event [CheckpointSave] s else s)
              in (None, s)))"

text \<open>
  The loop of \<^verbatim>\<open>fit\<close> over \<^verbatim>\<open>train_ds.repeat().take(steps).enumerate()\<close>, from step
  \<open>step\<close> on. \<^verbatim>\<open>take\<close> with a negative count takes every element. The loop may run
  forever; not returning is the value \<open>None\<close>.
\<close>

partial_function (option) fit_loop ::
  "'o train_env \<Rightarrow> (batch \<times> batch) dataset \<Rightarrow> int \<Rightarrow> batch \<times> batch \<Rightarrow> nat \<Rightarrow> 'o train_state
     \<Rightarrow> (tf_error option \<times> 'o train_state) option" where
  "fit_loop env train_ds steps example step s =
     (if 0 \<le> steps \<and> steps \<le> int step then Some (None, s)
      else case repeat_from train_ds 0 step of
             None \<Rightarrow> Some (None, s)
           | Some (Inl e) \<Rightarrow> Some (Some e, s)
           | Some (Inr (input_image, target)) \<Rightarrow>
               (case fit_body env example step input_image target s of
                  (Some e, s) \<Rightarrow> Some (Some e, s)
                | (None, s) \<Rightarrow> fit_loop env train_ds steps example (Suc step) s))"

definition fit ::
  "'o train_env \<Rightarrow> (batch \<times> batch) dataset \<Rightarrow> (batch \<times> batch) dataset \<Rightarrow> int \<Rightarrow> 'o train_state
     \<Rightarrow> (tf_error option \<times> 'o train_state) option" where
  "fit env train_ds test_ds steps s =
     (case test_ds 0 of
        [] \<Rightarrow> Some (Some StopIteration, s)
      | Inl e # _ \<Rightarrow> Some (Some e, s)
      | Inr example # _ \<Rightarrow> fit_loop env train_ds steps example 0 s)"


section \<open>Properties of the float32 rounding\<close>

lemma round_half_even_error: "\<bar>of_int (round_half_even y) - y\<bar> \<le> 1 / 2"
  unfolding round_half_even_def Let_def by (simp; linarith)

lemma round_half_even_le: "y \<le> of_int n \<Longrightarrow> round_half_even y \<le> n"
proof -
  assume a: "y \<le> of_int n"
  then have f: "\<lfloor>y\<rfloor> \<le> n" by (simp add: floor_le_iff) 
  show ?thesis
  proof (cases "\<lfloor>y\<rfloor> = n")
    case True
    then have "of_int n \<le> y" by (metis of_int_floor_le)
    with a have "y = of_int n" by simp
    then show ?thesis by (simp add: round_half_even_def)
  next
    case False
    with f have "\<lfloor>y\<rfloor> + 1 \<le> n" by simp
    then show ?thesis
      unfolding round_half_even_def Let_def by simp
  qed
qed

lemma round_half_even_ge: "of_int n \<le> y \<Longrightarrow> n \<le> round_half_even y"
proof -
  assume "of_int n \<le> y"
  then have "n \<le> \<lfloor>y\<rfloor>" by (simp add: le_floor_iff)
  then show ?thesis
    unfolding round_half_even_def Let_def by simp
qed

lemma float32_ulp_pos: "0 < (2 :: real) powr of_int (float32_exponent x - 23)"
  by simp

lemma float32_eq_ulp:
  "x \<noteq> 0 \<Longrightarrow> q = 2 powr of_int (float32_exponent x - 23) \<Longrightarrow>
   float32 x = of_int (round_half_even (x / q)) * q"
  by (simp add: float32_def)

lemma float32_error_ulp:
  assumes "x \<noteq> 0"
  shows "\<bar>float32 x - x\<bar> \<le> 2 powr of_int (float32_exponent x - 23) / 2"
proof -
  define q :: real where "q = 2 powr of_int (float32_exponent x - 23)"
  have q: "0 < q" by (simp add: q_def)
  have "float32 x = of_int (round_half_even (x / q)) * q"
    using assms q_def by (rule float32_eq_ulp)
  then have "float32 x - x = q * (of_int (round_half_even (x / q)) - x / q)"
    using q by (simp add: field_simps)
  then have "\<bar>float32 x - x\<bar> = q * \<bar>of_int (round_half_even (x / q)) - x / q\<bar>"
    using q by (simp add: abs_mult)
  also have "\<dots> \<le> q * (1 / 2)"
    using q round_half_even_error [of "x / q"] by (intro mult_left_mono) simp_all
  finally show ?thesis by (simp add: q_def)
qed

lemma float32_ulp_bound:
  assumes "x \<noteq> 0"
  shows "2 powr of_int (float32_exponent x - 23) \<le> \<bar>x\<bar> / 2 ^ 23 + 2 powr (- 149)"
proof (cases "- 126 \<le> \<lfloor>log 2 \<bar>x\<bar>\<rfloor>")
  case True
  then have e: "float32_exponent x = \<lfloor>log 2 \<bar>x\<bar>\<rfloor>"
    by (simp add: float32_exponent_def)
  have "2 powr of_int \<lfloor>log 2 \<bar>x\<bar>\<rfloor> \<le> 2 powr log 2 \<bar>x\<bar>"
    by (simp add: powr_mono)
  also have "\<dots> = \<bar>x\<bar>" using assms by simp
  finally have "2 powr of_int \<lfloor>log 2 \<bar>x\<bar>\<rfloor> \<le> \<bar>x\<bar>" .
  moreover have "(2 :: real) powr of_int (\<lfloor>log 2 \<bar>x\<bar>\<rfloor> - 23) = 2 powr of_int \<lfloor>log 2 \<bar>x\<bar>\<rfloor> / 2 ^ 23"
    by (simp add: powr_diff)
  moreover have "0 \<le> 2 powr (- 149 :: real)" by simp
  ultimately show ?thesis
    unfolding e by (simp add: divide_right_mono add_increasing2)
next
  case False
  then have "float32_exponent x = - 126"
    by (simp add: float32_exponent_def)
  then show ?thesis by simp
qed

lemma float32_error: "\<bar>float32 x - x\<bar> \<le> \<bar>x\<bar> / 2 ^ 24 + 2 powr (- 150)"
proof (cases "x = 0")
  case True
  then show ?thesis by (simp add: float32_def)
next
  case False
  have "(2 :: real) powr (- 149) / 2 = 2 powr (- 150)"
    by (simp add: powr_minus powr_numeral)
  with float32_error_ulp [OF False] float32_ulp_bound [OF False] show ?thesis
    by (simp add: field_simps)
qed

lemma float32_nonneg: "0 \<le> x \<Longrightarrow> 0 \<le> float32 x"
proof -
  assume x: "0 \<le> x"
  have "0 \<le> x / 2 powr of_int (float32_exponent x - 23)"
    using x by simp
  then have "(0 :: int) \<le> round_half_even (x / 2 powr of_int (float32_exponent x - 23))"
    using round_half_even_ge [of 0] by simp
  then show ?thesis
    by (simp add: float32_def)
qed

lemma float32_bound:
  assumes "- 126 \<le> k" and "\<bar>x\<bar> \<le> 2 powr of_int k"
  shows "\<bar>float32 x\<bar> \<le> 2 powr of_int k"
proof (cases "x = 0")
  case True
  then show ?thesis by (simp add: float32_def)
next
  case False
  define e where "e = float32_exponent x"
  define q :: real where "q = 2 powr of_int (e - 23)"
  define N :: int where "N = 2 ^ nat (k - e + 23)"
  have q: "0 < q" by (simp add: q_def)
  have "log 2 \<bar>x\<bar> \<le> log 2 (2 powr of_int k)"
    using False assms(2) by (simp del: log_powr_cancel)
  then have "log 2 \<bar>x\<bar> \<le> of_int k" by simp
  then have "\<lfloor>log 2 \<bar>x\<bar>\<rfloor> \<le> k" by (simp add: floor_le_iff) 
  with assms(1) have ek: "e \<le> k"
    by (simp add: e_def float32_exponent_def)
  have N: "of_int N * q = 2 powr of_int k"
  proof -
    have "(2 :: real) powr real_of_int (k - e + 23) = 2 ^ nat (k - e + 23)"
      using ek by (subst powr_real_of_int) simp_all
    then have "of_int N = (2 :: real) powr of_int (k - e + 23)"
      unfolding N_def by simp
    then have "of_int N * q = 2 powr (of_int (k - e + 23) + of_int (e - 23))"
      unfolding q_def by (simp only: powr_add)
    then show ?thesis by simp
  qed
  have fx: "float32 x = of_int (round_half_even (x / q)) * q"
    using False unfolding q_def e_def by (rule float32_eq_ulp) simp
  have "x \<le> of_int N * q" "- (of_int N * q) \<le> x"
    using assms(2) unfolding N by simp_all
  then have "x / q \<le> of_int N" "of_int (- N) \<le> x / q"
    using q by (simp_all add: field_simps)
  then have "round_half_even (x / q) \<le> N" "- N \<le> round_half_even (x / q)"
    by (simp_all only: round_half_even_le round_half_even_ge)
  then have "\<bar>round_half_even (x / q)\<bar> \<le> N" by simp
  then have "\<bar>of_int (round_half_even (x / q)) :: real\<bar> \<le> of_int N"
    by (metis of_int_abs of_int_le_iff)
  then have "\<bar>of_int (round_half_even (x / q)) * q\<bar> \<le> of_int N * q"
    using q by (simp add: abs_mult)
  then show ?thesis
    unfolding fx N .
qed

lemma float32_exponent_eval:
  assumes "x \<noteq> 0" "- 126 \<le> e" "2 powr of_int e \<le> \<bar>x\<bar>" "\<bar>x\<bar> < 2 powr of_int (e + 1)"
  shows "float32_exponent x = e"
proof -
  have "of_int e \<le> log 2 \<bar>x\<bar>"
    using assms(1,3) by (simp add: le_log_iff)
  moreover have "log 2 \<bar>x\<bar> < of_int e + 1"
    using assms(1,4) by (simp add: log_less_iff)
  ultimately have "\<lfloor>log 2 \<bar>x\<bar>\<rfloor> = e"
    by (simp add: floor_eq_iff)
  with assms(2) show ?thesis
    by (simp add: float32_exponent_def)
qed

lemma float32_eval_powr:
  assumes "x \<noteq> 0" "- 126 \<le> e" "2 powr of_int e \<le> \<bar>x\<bar>" "\<bar>x\<bar> < 2 powr of_int (e + 1)"
  shows "float32 x = of_int (round_half_even (x / 2 powr of_int (e - 23))) * 2 powr of_int (e - 23)"
  using assms(1) unfolding float32_def float32_exponent_eval [OF assms] by simp

lemma powr_int_diff: "(2 :: real) powr of_int (int a - int b) = 2 ^ a / 2 ^ b"
  by (simp add: powr_diff powr_realpow)

lemma float32_eval:
  assumes "x \<noteq> 0" "b \<le> a + 149"
    and "2 ^ (a + 23) / 2 ^ b \<le> \<bar>x\<bar>" "\<bar>x\<bar> < 2 ^ (a + 24) / 2 ^ b"
  shows "float32 x = of_int (round_half_even (x * 2 ^ b / 2 ^ a)) * 2 ^ a / 2 ^ b"
proof -
  define e where "e = int (a + 23) - int b"
  have e1: "e + 1 = int (a + 24) - int b" and e2: "e - 23 = int a - int b"
    by (simp_all add: e_def)
  have "- 126 \<le> e"
    using assms(2) by (simp add: e_def)
  moreover have "2 powr of_int e \<le> \<bar>x\<bar>"
    unfolding e_def powr_int_diff by (rule assms(3))
  moreover have "\<bar>x\<bar> < 2 powr of_int (e + 1)"
    unfolding e1 powr_int_diff by (rule assms(4))
  ultimately have "float32 x = of_int (round_half_even (x / 2 powr of_int (e - 23))) * 2 powr of_int (e - 23)"
    using assms(1) by (intro float32_eval_powr)
  then show ?thesis
    unfolding e2 powr_int_diff by simp
qed

lemma float32_bound_one: "\<bar>x\<bar> \<le> 1 \<Longrightarrow> \<bar>float32 x\<bar> \<le> 1"
  using float32_bound [of 0 x] by simp

lemma float32_bound_two: "\<bar>x\<bar> \<le> 2 \<Longrightarrow> \<bar>float32 x\<bar> \<le> 2"
  using float32_bound [of 1 x] by simp

lemma float32_tiny: "(2 :: real) powr (- 150) \<le> 1 / 2 ^ 24" "0 \<le> (2 :: real) powr (- 150)"
proof -
  have "(2 :: real) powr (- 150) \<le> 2 powr (- 24)"
    by (rule powr_mono) simp_all
  also have "\<dots> = 1 / 2 ^ 24"
    using powr_int_diff [of 0 24] by simp
  finally show "(2 :: real) powr (- 150) \<le> 1 / 2 ^ 24" .
  show "0 \<le> (2 :: real) powr (- 150)" by simp
qed

lemma float32_error_bound:
  assumes "\<bar>y\<bar> \<le> B"
  shows "float32 y - y \<le> B / 16777216 + 2 powr (- 150) \<and> - (B / 16777216 + 2 powr (- 150)) \<le> float32 y - y"
proof -
  have "\<bar>y\<bar> / 2 ^ 24 \<le> B / 2 ^ 24"
    using assms by (rule divide_right_mono) simp
  then have "\<bar>float32 y - y\<bar> \<le> B / 16777216 + 2 powr (- 150)"
    using float32_error [of y] by simp
  then show ?thesis
    by (intro conjI) linarith+
qed

lemma round_half_even_of_int: "round_half_even (of_int n) = n"
  by (simp add: round_half_even_def)

lemma float32_exact:
  assumes "\<bar>M\<bar> < 2 ^ 24" "- 149 \<le> j"
  shows "float32 (of_int M * 2 powr of_int j) = of_int M * 2 powr of_int j"
proof (cases "M = 0")
  case True
  then show ?thesis by (simp add: float32_def)
next
  case False
  define x :: real where "x = of_int M * 2 powr of_int j"
  define e where "e = float32_exponent x"
  define d where "d = nat (j + 23 - e)"
  define q :: real where "q = 2 powr of_int (e - 23)"
  have x0: "x \<noteq> 0" using False by (simp add: x_def)
  have q0: "0 < q" by (simp add: q_def)
  have m: "real_of_int \<bar>M\<bar> < 2 ^ 24"
    using assms(1) by (metis of_int_less_iff of_int_numeral of_int_power)
  have b: "real_of_int \<bar>M\<bar> * 2 powr of_int j < 2 ^ 24 * 2 powr of_int j"
    using m by (rule mult_strict_right_mono) simp
  have a: "\<bar>x\<bar> = real_of_int \<bar>M\<bar> * 2 powr of_int j"
    by (simp add: x_def abs_mult)
  have c: "(2 :: real) powr of_int (j + 24) = 2 ^ 24 * 2 powr of_int j"
    using powr_add [of "2 :: real" "of_int j" 24] by (simp add: mult.commute)
  have "\<bar>x\<bar> < 2 powr of_int (j + 24)"
    unfolding a c by (rule b)
  then have "log 2 \<bar>x\<bar> < of_int (j + 24)"
    using x0 by (simp add: log_less_iff)
  then have "\<lfloor>log 2 \<bar>x\<bar>\<rfloor> < j + 24"
    by (simp add: floor_less_iff)
  with assms(2) have ej: "e \<le> j + 23"
    by (simp add: e_def float32_exponent_def)
  have "(2 :: real) powr real_of_int (j + 23 - e) = 2 ^ d"
    unfolding d_def using ej by (subst powr_real_of_int) simp_all
  moreover have "(2 :: real) powr real_of_int (j + 23 - e) * q = 2 powr of_int j"
    unfolding q_def by (simp add: powr_add [symmetric])
  ultimately have pj: "2 powr of_int j = 2 ^ d * q"
    by simp
  have "x / q = of_int (M * 2 ^ d)"
    using q0 by (simp add: x_def pj)
  then have "round_half_even (x / q) = M * 2 ^ d"
    by (simp only: round_half_even_of_int)
  moreover have "float32 x = of_int (round_half_even (x / q)) * q"
    using x0 unfolding q_def e_def by (rule float32_eq_ulp) simp
  ultimately have "float32 x = x"
    by (simp add: x_def pj)
  then show ?thesis
    by (simp only: x_def)
qed

lemma float32_of_nat: "n < 2 ^ 24 \<Longrightarrow> float32 (real n) = real n"
  using float32_exact [of "int n" 0] by simp

lemma float32_half: "n < 2 ^ 23 \<Longrightarrow> float32 (real n + 1 / 2) = real n + 1 / 2"
proof -
  assume "n < 2 ^ 23"
  then have "\<bar>2 * int n + 1\<bar> < 2 ^ 24" by simp
  from float32_exact [OF this, of "- 1"]
  show ?thesis by (simp add: powr_minus field_simps)
qed

lemma float32_rel_error:
  assumes "2 powr (- 126) \<le> \<bar>x\<bar>"
  shows "\<bar>float32 x - x\<bar> \<le> \<bar>x\<bar> / 2 ^ 24"
proof -
  have "(0 :: real) < 2 powr (- 126)" by simp
  with assms have x0: "x \<noteq> 0" by auto
  have "of_int (- 126) \<le> log 2 \<bar>x\<bar>"
    using assms x0 by (simp add: le_log_iff)
  then have "- 126 \<le> \<lfloor>log 2 \<bar>x\<bar>\<rfloor>"
    by (simp only: le_floor_iff)
  then have e: "float32_exponent x = \<lfloor>log 2 \<bar>x\<bar>\<rfloor>"
    by (simp add: float32_exponent_def)
  have "2 powr of_int \<lfloor>log 2 \<bar>x\<bar>\<rfloor> \<le> 2 powr log 2 \<bar>x\<bar>"
    by (simp add: powr_mono)
  also have "\<dots> = \<bar>x\<bar>" using x0 by simp
  finally have "2 powr of_int \<lfloor>log 2 \<bar>x\<bar>\<rfloor> \<le> \<bar>x\<bar>" .
  moreover have "(2 :: real) powr of_int (\<lfloor>log 2 \<bar>x\<bar>\<rfloor> - 23) = 2 powr of_int \<lfloor>log 2 \<bar>x\<bar>\<rfloor> / 2 ^ 23"
    by (simp add: powr_diff)
  ultimately have "2 powr of_int (float32_exponent x - 23) \<le> \<bar>x\<bar> / 2 ^ 23"
    unfolding e by (simp add: divide_right_mono)
  with float32_error_ulp [OF x0] show ?thesis
    by simp
qed

lemma float32_normal_threshold: "(2 :: real) powr (- 126) \<le> 1 / 2 ^ 26"
proof -
  have "(2 :: real) powr (- 126) \<le> 2 powr (- 26)"
    by (rule powr_mono) simp_all
  also have "\<dots> = 1 / 2 ^ 26"
    using powr_int_diff [of 0 26] by simp
  finally show ?thesis .
qed


section \<open>Normalization\<close>

lemma normalize_value_range:
  assumes "0 \<le> x" "x \<le> 255"
  shows "- 1 \<le> normalize_value x \<and> normalize_value x \<le> 1"
proof -
  have a: "0 \<le> x / 127.5" "\<bar>x / 127.5\<bar> \<le> 2"
    using assms by simp_all
  have "0 \<le> float32 (x / 127.5)" "\<bar>float32 (x / 127.5)\<bar> \<le> 2"
    using a by (simp_all only: float32_nonneg float32_bound_two)
  then have "\<bar>float32 (x / 127.5) - 1\<bar> \<le> 1"
    by linarith
  then have "\<bar>normalize_value x\<bar> \<le> 1"
    unfolding normalize_value_def by (rule float32_bound_one)
  then show ?thesis by linarith
qed

lemma denormalize_normalize_close:
  assumes "0 \<le> x" "x \<le> 255"
  shows "\<bar>denormalize_spec (normalize_value x) - x\<bar> \<le> 1 / 10000"
proof -
  define s :: real where "s = 2 powr (- 150)"
  define a where "a = x / 127.5"
  define n1 where "n1 = float32 a"
  define n2 where "n2 = float32 (n1 - 1)"
  define d1 where "d1 = float32 (n2 + 1)"
  define d2 where "d2 = float32 (d1 * 127.5)"
  have s: "0 \<le> s" "s \<le> 1 / 16777216"
    using float32_tiny by (simp_all add: s_def)
  have a: "0 \<le> a" "a \<le> 2" "x = 127.5 * a"
    using assms by (simp_all add: a_def)
  have n1: "0 \<le> n1" "n1 \<le> 2"
  proof -
    show "0 \<le> n1" unfolding n1_def using a(1) by (rule float32_nonneg)
    have "\<bar>a\<bar> \<le> 2" using a by linarith
    then have "\<bar>n1\<bar> \<le> 2" unfolding n1_def by (rule float32_bound_two)
    then show "n1 \<le> 2" by linarith
  qed
  have "\<bar>a\<bar> \<le> 2" using a by linarith
  then have e1: "n1 - a \<le> 2 / 16777216 + s \<and> - (2 / 16777216 + s) \<le> n1 - a"
    unfolding n1_def s_def by (rule float32_error_bound)
  have b: "\<bar>n1 - 1\<bar> \<le> 1" using n1 by linarith
  then have n2: "\<bar>n2\<bar> \<le> 1"
    unfolding n2_def by (rule float32_bound_one)
  have e2: "n2 - (n1 - 1) \<le> 1 / 16777216 + s \<and> - (1 / 16777216 + s) \<le> n2 - (n1 - 1)"
    unfolding n2_def s_def using b by (rule float32_error_bound)
  have c: "\<bar>n2 + 1\<bar> \<le> 2" using n2 by linarith
  then have d1: "\<bar>d1\<bar> \<le> 2"
    unfolding d1_def by (rule float32_bound_two)
  have e3: "d1 - (n2 + 1) \<le> 2 / 16777216 + s \<and> - (2 / 16777216 + s) \<le> d1 - (n2 + 1)"
    unfolding d1_def s_def using c by (rule float32_error_bound)
  have r: "\<bar>d1 * 127.5\<bar> \<le> 255" using d1 by (simp add: abs_mult)
  have e4: "d2 - d1 * 127.5 \<le> 255 / 16777216 + s \<and> - (255 / 16777216 + s) \<le> d2 - d1 * 127.5"
    unfolding d2_def s_def using r by (rule float32_error_bound)
  have eq: "denormalize_spec (normalize_value x) = d2"
    by (simp only: denormalize_spec_def normalize_value_def d2_def d1_def n2_def n1_def a_def)
  have "d2 - x \<le> 1 / 10000"
    using e1 e2 e3 e4 s a(3) by linarith
  moreover have "- (1 / 10000) \<le> d2 - x"
    using e1 e2 e3 e4 s a(3) by linarith
  ultimately show ?thesis
    unfolding eq by linarith
qed

lemma pixel_values_map_image: "pixel_values (map_image f img) = f ` pixel_values img"
  by (simp add: pixel_values_def map_image_def map_concat image_Union image_image)

lemma close_images_map:
  assumes "\<forall>x \<in> pixel_values img. \<bar>x - f x\<bar> \<le> tol"
  shows "close_images tol img (map_image f img)"
  using assms
  by (auto simp: close_images_def map_image_def pixel_values_def list_all2_map2 list_all2_same)

lemma map_image_comp: "map_image g (map_image f img) = map_image (\<lambda>x. g (f x)) img"
  by (simp add: map_image_def comp_def)

lemma normalize_value_51: "normalize_value 51 = - (5033165 / 8388608)"
proof -
  have "float32 (51 / 127.5) = 13421773 / 33554432"
    by (subst float32_eval [where a = 0 and b = 25]) (simp_all add: round_half_even_def Let_def)
  moreover have "float32 (13421773 / 33554432 - 1) = - (5033165 / 8388608)"
    by (subst float32_eval [where a = 0 and b = 24]) (simp_all add: round_half_even_def Let_def)
  ultimately show ?thesis
    by (simp only: normalize_value_def)
qed

lemma denormalize_normalize_1: "denormalize_spec (normalize_value 1) = 16777215 / 16777216"
proof -
  have "float32 (1 / 127.5) = 8421505 / 1073741824"
    by (subst float32_eval [where a = 0 and b = 30]) (simp_all add: round_half_even_def Let_def)
  moreover have "float32 (8421505 / 1073741824 - 1) = - (8322815 / 8388608)"
    by (subst float32_eval [where a = 0 and b = 24]) (simp_all add: round_half_even_def Let_def)
  moreover have "float32 (- (8322815 / 8388608) + 1) = 65793 / 8388608"
    by (subst float32_eval [where a = 0 and b = 30]) (simp_all add: round_half_even_def Let_def)
  moreover have "float32 (65793 / 8388608 * 127.5) = 16777215 / 16777216"
    by (subst float32_eval [where a = 0 and b = 24]) (simp_all add: round_half_even_def Let_def)
  ultimately show ?thesis
    by (simp only: normalize_value_def denormalize_spec_def)
qed

text \<open>
  Claim C4. Normalization \<open>(x / 127.5) - 1\<close>, computed in float32, maps every pixel
  value of [0, 255] into [-1, 1], and denormalization \<open>(x + 1) * 127.5\<close>, computed in
  float32, brings every value back to within \<open>1 / 10000\<close> of the original, for both
  images of the pair. The round trip is not exact: the pixel value 1 comes back as
  \<open>1 - 1 / 2 ^ 24\<close>.
\<close>

theorem normalize_range_roundtrip:
  assumes "\<forall>x \<in> pixel_values input_image \<union> pixel_values real_image. 0 \<le> x \<and> x \<le> 255"
  shows "(\<forall>y \<in> pixel_values (fst (normalize input_image real_image))
                 \<union> pixel_values (snd (normalize input_image real_image)). - 1 \<le> y \<and> y \<le> 1)
       \<and> close_images (1 / 10000) input_image
            (map_image denormalize_spec (fst (normalize input_image real_image)))
       \<and> close_images (1 / 10000) real_image
            (map_image denormalize_spec (snd (normalize input_image real_image)))"
proof -
  have r: "- 1 \<le> normalize_value x \<and> normalize_value x \<le> 1"
    if "x \<in> pixel_values input_image \<union> pixel_values real_image" for x
    using assms that normalize_value_range by blast
  have c: "\<bar>x - denormalize_spec (normalize_value x)\<bar> \<le> 1 / 10000"
    if "x \<in> pixel_values input_image \<union> pixel_values real_image" for x
  proof -
    from assms that have "0 \<le> x" "x \<le> 255" by blast+
    then have "\<bar>denormalize_spec (normalize_value x) - x\<bar> \<le> 1 / 10000"
      by (rule denormalize_normalize_close)
    then show ?thesis by (simp only: abs_minus_commute)
  qed
  have "\<forall>y \<in> pixel_values (fst (normalize input_image real_image))
                 \<union> pixel_values (snd (normalize input_image real_image)). - 1 \<le> y \<and> y \<le> 1"
    unfolding normalize_def fst_conv snd_conv pixel_values_map_image
    using r by blast
  moreover have "close_images (1 / 10000) input_image
                   (map_image denormalize_spec (fst (normalize input_image real_image)))"
    unfolding normalize_def fst_conv map_image_comp
    by (rule close_images_map) (use c in blast)
  moreover have "close_images (1 / 10000) real_image
                   (map_image denormalize_spec (snd (normalize input_image real_image)))"
    unfolding normalize_def snd_conv map_image_comp
    by (rule close_images_map) (use c in blast)
  ultimately show ?thesis by blast
qed

theorem normalize_range_roundtrip_witness:
  "close_images (1 / 10000) [[[0, 1, 255]]]
     (map_image denormalize_spec (fst (normalize [[[0, 1, 255]]] [[[51, 127.5, 128]]])))
   \<and> close_images (1 / 10000) [[[51, 127.5, 128]]]
     (map_image denormalize_spec (snd (normalize [[[0, 1, 255]]] [[[51, 127.5, 128]]])))
   \<and> normalize_value 51 = - (5033165 / 8388608)
   \<and> denormalize_spec (normalize_value 1) = 16777215 / 16777216"
proof -
  have h: "\<forall>x \<in> pixel_values [[[0, 1, 255 :: real]]] \<union> pixel_values [[[51, 127.5, 128 :: real]]].
             0 \<le> x \<and> x \<le> 255"
    by (simp add: pixel_values_def)
  from normalize_range_roundtrip [OF h] normalize_value_51 denormalize_normalize_1
  show ?thesis
    by blast
qed

section \<open>Training augmentation\<close>

lemma is_image_nth:
  "is_image h w c img \<Longrightarrow> y < h \<Longrightarrow> x < w \<Longrightarrow> length (img ! y) = w \<and> length (img ! y ! x) = c"
  by (auto simp: is_image_def list_all_length)

lemma is_image_shape3: "is_image h w c img \<Longrightarrow> 0 < h \<Longrightarrow> 0 < w \<Longrightarrow> shape3 img = (h, w, c)"
  unfolding shape3_def height_def width_def channels_def is_image_def
  by (cases img; cases "hd img"; auto)

lemma nn_index_less: "0 < n \<Longrightarrow> nn_index n m i < n"
proof -
  assume "0 < n"
  moreover have "nn_index n m i \<le> n - 1"
    by (simp add: nn_index_def)
  ultimately show ?thesis by arith
qed

lemma resize_nearest_ok:
  assumes "is_image h w c img" "0 < h" "0 < w" "0 < h'" "0 < w'" "0 < c"
  shows "resize_nearest h' w' img =
           Inr (map (\<lambda>y. map (\<lambda>x. img ! nn_index h h' y ! nn_index w w' x) [0..<w']) [0..<h'])"
proof -
  from is_image_shape3 [OF assms(1-3)] have "height img = h" "width img = w" "channels img = c"
    by (simp_all add: shape3_def)
  with assms show ?thesis
    by (simp add: resize_nearest_def)
qed

lemma nearest_is_image:
  assumes "is_image h w c img" "0 < h" "0 < w"
  shows "is_image h' w' c (map (\<lambda>y. map (\<lambda>x. img ! nn_index h h' y ! nn_index w w' x) [0..<w']) [0..<h'])"
  using assms is_image_nth [OF assms(1)] nn_index_less
  by (simp add: is_image_def list_all_iff)

lemma slice3_is_image:
  assumes "is_image H W C img" "oy + h \<le> H" "ox + w \<le> W" "oc + c \<le> C"
  shows "is_image h w c (slice3 (oy, ox, oc) (h, w, c) img)"
  using assms
  by (auto simp: slice3_def is_image_def list_all_iff dest!: in_set_takeD in_set_dropD)

lemma flip_is_image: "is_image h w c img \<Longrightarrow> is_image h w c (flip_left_right img)"
  by (auto simp: flip_left_right_def is_image_def list_all_iff)

lemma random_crop_ok:
  assumes "is_image 542 542 3 a" "is_image 542 542 3 b"
  shows "random_crop (d0, d1, d2, d3) a b =
           Inr (slice3 (d1 mod 31, d2 mod 31, 0) (512, 512, 3) a,
                slice3 (d1 mod 31, d2 mod 31, 0) (512, 512, 3) b)"
proof -
  have s: "shape3 a = (542, 542, 3)" "shape3 b = (542, 542, 3)"
    using assms by (simp_all add: is_image_shape3)
  then have st: "tf_stack [a, b] = Inr [a, b]"
    by (simp add: tf_stack_def)
  have sh: "shape4 [a, b] = (2, 542, 542, 3)"
    using s by (simp add: shape4_def)
  have "tf_random_crop (d0, d1, d2, d3) [a, b] (2, 512, 512, 3) =
          Inr [slice3 (d1 mod 31, d2 mod 31, 0) (512, 512, 3) a,
               slice3 (d1 mod 31, d2 mod 31, 0) (512, 512, 3) b]"
    by (simp add: tf_random_crop_def sh slice4_def)
  then show ?thesis
    by (simp add: random_crop_def st bind_err_def IMG_HEIGHT_def IMG_WIDTH_def)
qed

lemma random_jitter_unfold:
  assumes "is_image h w 3 a" "is_image h' w' 3 b" "0 < h" "0 < w" "0 < h'" "0 < w'"
  shows "random_jitter rnd a b = Inr (jitter_one_spec rnd a, jitter_one_spec rnd b)"
proof -
  obtain d0 d1 d2 d3 where d: "crop_draws rnd = (d0, d1, d2, d3)"
    by (cases "crop_draws rnd") auto
  define ra where "ra = map (\<lambda>y. map (\<lambda>x. a ! nn_index h 542 y ! nn_index w 542 x) [0..<542]) [0..<542]"
  define rb where "rb = map (\<lambda>y. map (\<lambda>x. b ! nn_index h' 542 y ! nn_index w' 542 x) [0..<542]) [0..<542]"
  have hw: "height a = h" "width a = w" "height b = h'" "width b = w'"
    using is_image_shape3 [OF assms(1,3,4)] is_image_shape3 [OF assms(2,5,6)]
    by (simp_all add: shape3_def)
  have ia: "is_image 542 542 3 ra" and ib: "is_image 542 542 3 rb"
    unfolding ra_def rb_def using assms by (simp_all add: nearest_is_image)
  have r: "resize a b 542 542 = Inr (ra, rb)"
    unfolding ra_def rb_def resize_def
    using resize_nearest_ok [OF assms(1,3,4), of 542 542] resize_nearest_ok [OF assms(2,5,6), of 542 542]
    by (simp add: bind_err_def)
  have c: "random_crop (crop_draws rnd) ra rb =
             Inr (slice3 (d1 mod 31, d2 mod 31, 0) (512, 512, 3) ra,
                  slice3 (d1 mod 31, d2 mod 31, 0) (512, 512, 3) rb)"
    unfolding d by (rule random_crop_ok [OF ia ib])
  have ja: "jitter_one_spec rnd a =
              (if flip_draw rnd > 0.5 then flip_left_right (slice3 (d1 mod 31, d2 mod 31, 0) (512, 512, 3) ra)
               else slice3 (d1 mod 31, d2 mod 31, 0) (512, 512, 3) ra)"
    by (simp add: jitter_one_spec_def d hw ra_def Let_def)
  have jb: "jitter_one_spec rnd b =
              (if flip_draw rnd > 0.5 then flip_left_right (slice3 (d1 mod 31, d2 mod 31, 0) (512, 512, 3) rb)
               else slice3 (d1 mod 31, d2 mod 31, 0) (512, 512, 3) rb)"
    by (simp add: jitter_one_spec_def d hw rb_def Let_def)
  show ?thesis
    unfolding random_jitter_def r ja jb
    by (simp add: bind_err_def c)
qed


lemma jitter_one_spec_is_image:
  assumes "is_image h w 3 img" "0 < h" "0 < w"
  shows "is_image 512 512 3 (jitter_one_spec rnd img)"
proof -
  obtain d0 d1 d2 d3 where d: "crop_draws rnd = (d0, d1, d2, d3)"
    by (cases "crop_draws rnd") auto
  define r where "r = map (\<lambda>y. map (\<lambda>x. img ! nn_index h 542 y ! nn_index w 542 x) [0..<542]) [0..<542]"
  have hw: "height img = h" "width img = w"
    using is_image_shape3 [OF assms] by (simp_all add: shape3_def)
  have "is_image 542 542 3 r"
    unfolding r_def using assms by (simp add: nearest_is_image)
  moreover have "d1 mod 31 + 512 \<le> 542" "d2 mod 31 + 512 \<le> 542"
    by simp_all
  ultimately have c: "is_image 512 512 3 (slice3 (d1 mod 31, d2 mod 31, 0) (512, 512, 3) r)"
    by (simp add: slice3_is_image)
  have "jitter_one_spec rnd img =
          (if flip_draw rnd > 0.5 then flip_left_right (slice3 (d1 mod 31, d2 mod 31, 0) (512, 512, 3) r)
           else slice3 (d1 mod 31, d2 mod 31, 0) (512, 512, 3) r)"
    by (simp add: jitter_one_spec_def d hw r_def Let_def)
  with c show ?thesis
    by (simp add: flip_is_image)
qed

lemma slice3_nth:
  assumes "is_image H W C img" "oy + h \<le> H" "ox + w \<le> W" "y < h" "x < w"
  shows "slice3 (oy, ox, 0) (h, w, C) img ! y ! x = img ! (oy + y) ! (ox + x)"
proof -
  have l: "length img = H" using assms(1) by (simp add: is_image_def)
  have r: "length (img ! (oy + y)) = W" "length (img ! (oy + y) ! (ox + x)) = C"
    using is_image_nth [OF assms(1), of "oy + y" "ox + x"] assms by simp_all
  show ?thesis
    using assms l r by (simp add: slice3_def)
qed

lemma flip_left_right_nth:
  assumes "is_image h w c img" "y < h" "x < w"
  shows "flip_left_right img ! y ! x = img ! y ! (w - 1 - x)"
proof -
  have "length img = h" using assms(1) by (simp add: is_image_def)
  moreover have "length (img ! y) = w"
    using is_image_nth [OF assms(1), of y x] assms by simp
  ultimately show ?thesis
    using assms by (simp add: flip_left_right_def rev_nth)
qed

lemma nn_index_tie_640: "nn_index 640 542 406 = 479"
proof -
  have f1: "float32 640 = 640"
    by (subst float32_eval [where a = 0 and b = 14]) (simp_all add: round_half_even_def Let_def)
  have f2: "float32 542 = 542"
    by (subst float32_eval [where a = 0 and b = 14]) (simp_all add: round_half_even_def Let_def)
  have f3: "float32 (640 / 542) = 9905367 / 8388608"
    by (subst float32_eval [where a = 0 and b = 23]) (simp_all add: round_half_even_def Let_def)
  have f4: "float32 406 = 406"
    by (subst float32_eval [where a = 0 and b = 15]) (simp_all add: round_half_even_def Let_def)
  have f5: "float32 (406 + 1 / 2) = 813 / 2"
    by (subst float32_eval [where a = 0 and b = 15]) (simp_all add: round_half_even_def Let_def)
  have f6: "float32 (813 / 2 * (9905367 / 8388608)) = 15728639 / 32768"
    by (subst float32_eval [where a = 0 and b = 15]) (simp_all add: round_half_even_def Let_def)
  have s: "resize_scale 640 542 = 9905367 / 8388608"
    unfolding resize_scale_def by (simp only: of_nat_numeral f1 f2 f3)
  have p: "float32 (float32 (float32 (real 406) + 1 / 2) * resize_scale 640 542) = 15728639 / 32768"
    by (simp only: of_nat_numeral f4 f5 s f6)
  show ?thesis
    unfolding nn_index_def p by simp
qed

lemma nearest_nth:
  "y < h' \<Longrightarrow> x < w' \<Longrightarrow>
   map (\<lambda>y. map (\<lambda>x. img ! nn_index h h' y ! nn_index w w' x) [0..<w']) [0..<h'] ! y ! x =
     img ! nn_index h h' y ! nn_index w w' x"
  by simp

lemma jitter_one_spec_crop:
  assumes "is_image h w 3 img" "0 < h" "0 < w" "crop_draws rnd = (d0, d1, d2, d3)"
    and "r = map (\<lambda>y. map (\<lambda>x. img ! nn_index h 542 y ! nn_index w 542 x) [0..<542]) [0..<542]"
  shows "jitter_one_spec rnd img =
           (if flip_draw rnd > 0.5 then flip_left_right (slice3 (d1 mod 31, d2 mod 31, 0) (512, 512, 3) r)
            else slice3 (d1 mod 31, d2 mod 31, 0) (512, 512, 3) r)"
proof -
  have hw: "height img = h" "width img = w"
    using is_image_shape3 [OF assms(1-3)] by (simp_all add: shape3_def)
  show ?thesis
    by (simp add: jitter_one_spec_def assms(4,5) hw Let_def)
qed

lemma jitter_one_spec_nth:
  assumes "is_image h w 3 img" "0 < h" "0 < w" "crop_draws rnd = (d0, d1, d2, d3)"
    and "r = map (\<lambda>y. map (\<lambda>x. img ! nn_index h 542 y ! nn_index w 542 x) [0..<542]) [0..<542]"
    and "y < 512" "x < 512"
  shows "jitter_one_spec rnd img ! y ! x =
           r ! (d1 mod 31 + y) ! (d2 mod 31 + (if flip_draw rnd > 0.5 then 511 - x else x))"
proof -
  define c where "c = slice3 (d1 mod 31, d2 mod 31, 0) (512, 512, 3) r"
  have ir: "is_image 542 542 3 r"
    unfolding assms(5) using assms(1-3) by (rule nearest_is_image)
  have le: "d1 mod 31 + 512 \<le> 542" "d2 mod 31 + 512 \<le> 542"
    by simp_all
  have ic: "is_image 512 512 3 c"
    unfolding c_def using ir le by (simp add: slice3_is_image)
  have cn: "c ! y' ! x' = r ! (d1 mod 31 + y') ! (d2 mod 31 + x')" if "y' < 512" "x' < 512" for y' x'
    unfolding c_def using ir le that by (rule slice3_nth)
  have j: "jitter_one_spec rnd img = (if flip_draw rnd > 0.5 then flip_left_right c else c)"
    unfolding c_def using assms(1-5) by (rule jitter_one_spec_crop)
  show ?thesis
  proof (cases "flip_draw rnd > 0.5")
    case True
    have "511 - x < 512" by simp
    from flip_left_right_nth [OF ic assms(6,7)] cn [OF assms(6) this] True j
    show ?thesis by simp
  next
    case False
    with cn [OF assms(6,7)] j show ?thesis by simp
  qed
qed

lemma nn_index_nearest:
  assumes "0 < n" "n < 2 ^ 24" "0 < m" "m \<le> 2 ^ 23" "i < m"
  shows "\<bar>real (nn_index n m i) + 1 / 2 - (real i + 1 / 2) * real n / real m\<bar>
           \<le> 1 / 2 + 3 * real n / 2 ^ 24"
proof -
  define r where "r = real n / real m"
  define t where "t = real i + 1 / 2"
  define sc where "sc = float32 r"
  define q where "q = t * r"
  define ps where "ps = t * sc"
  define p where "p = float32 ps"
  have m24: "m < 2 ^ 24" and i23: "i < 2 ^ 23" and i24: "i < 2 ^ 24"
    using assms(4,5) by simp_all
  have sc: "resize_scale n m = sc"
    by (simp only: resize_scale_def sc_def r_def float32_of_nat [OF assms(2)] float32_of_nat [OF m24])
  have idx: "nn_index n m i = min (nat \<lfloor>p\<rfloor>) (n - 1)"
    by (simp only: nn_index_def sc p_def ps_def t_def float32_of_nat [OF i24] float32_half [OF i23])
  have t: "1 / 2 \<le> t" "t < real m"
    using assms(5) by (simp_all add: t_def)
  have "1 / 16777216 \<le> 1 / real m"
    using assms(3) m24 by (intro frac_le) simp_all
  also have "\<dots> \<le> real n / real m"
    using assms(1,3) by (simp add: divide_right_mono)
  finally have r: "1 / 16777216 \<le> r"
    unfolding r_def .
  have "2 powr (- 126) \<le> \<bar>r\<bar>"
    using r float32_normal_threshold by simp
  then have "\<bar>sc - r\<bar> \<le> \<bar>r\<bar> / 2 ^ 24"
    unfolding sc_def by (rule float32_rel_error)
  then have e1: "\<bar>sc - r\<bar> \<le> r / 16777216"
    using r by simp
  have "\<bar>ps - q\<bar> = t * \<bar>sc - r\<bar>"
    using t(1) by (simp add: ps_def q_def abs_mult right_diff_distrib [symmetric])
  also have "\<dots> \<le> t * (r / 16777216)"
    using e1 t(1) by (intro mult_left_mono) simp_all
  finally have e2: "\<bar>ps - q\<bar> \<le> q / 16777216"
    by (simp add: q_def)
  have "1 / 2 * (1 / 16777216) \<le> t * r"
    using t(1) r by (intro mult_mono) simp_all
  then have q25: "1 / 33554432 \<le> q"
    by (simp add: q_def)
  have ps26: "1 / 67108864 \<le> ps"
    using e2 q25 by linarith
  then have "2 powr (- 126) \<le> \<bar>ps\<bar>"
    using float32_normal_threshold by simp
  then have "\<bar>p - ps\<bar> \<le> \<bar>ps\<bar> / 2 ^ 24"
    unfolding p_def by (rule float32_rel_error)
  then have e3: "\<bar>p - ps\<bar> \<le> ps / 16777216"
    using ps26 by simp
  have "t / real m < 1"
    using t(2) assms(3) by simp
  then have "real n * (t / real m) < real n * 1"
    using assms(1) by (intro mult_strict_left_mono) simp_all
  then have qn: "q < real n"
    by (simp add: q_def r_def mult.commute)
  have q0: "0 \<le> q" using q25 by simp
  have e4: "\<bar>p - q\<bar> \<le> 3 * real n / 16777216"
    using e2 e3 qn q0 by linarith
  have p0: "0 \<le> p"
    unfolding p_def using ps26 by (intro float32_nonneg) simp
  then have fl: "real (nat \<lfloor>p\<rfloor>) \<le> p" "p < real (nat \<lfloor>p\<rfloor>) + 1"
    by (simp_all add: of_nat_nat)
  have goal: "(real i + 1 / 2) * real n / real m = q"
    by (simp add: q_def t_def r_def)
  have main: "\<bar>real (nn_index n m i) + 1 / 2 - q\<bar> \<le> 1 / 2 + 3 * real n / 16777216"
  proof (cases "nat \<lfloor>p\<rfloor> \<le> n - 1")
    case True
    then have "real (nn_index n m i) = real (nat \<lfloor>p\<rfloor>)"
      by (simp add: idx)
    with fl e4 show ?thesis
      by linarith
  next
    case False
    then have "real n \<le> real (nat \<lfloor>p\<rfloor>)"
      using assms(1) by simp
    moreover have "real (nn_index n m i) = real n - 1"
      using False assms(1) by (simp add: idx of_nat_diff)
    ultimately show ?thesis
      using fl e4 qn by linarith
  qed
  then show ?thesis
    unfolding goal by simp
qed

text \<open>
  Claim C2. For decoded three-channel images of any (non-zero) spatial size, the
  training augmentation first resizes both to 542 x 542 with the nearest-neighbour
  kernel: every resized pixel is the pixel of the original at the kernel's source
  index, and the centre of that source pixel lies within half a pixel, up to the
  float32 rounding \<open>3 n / 2 ^ 24\<close> of the kernel, of the ideal sample position
  \<open>(i + 1/2) n / 542\<close>. It then crops: the result is a pair of images of shape exactly
  512 x 512 x 3 whose pixels are those of the resized images at the crop offset
  (read right to left when the flip is taken).
\<close>

theorem random_jitter_shape:
  assumes "is_image h w 3 input_image" "is_image h' w' 3 real_image"
    and "0 < h" "0 < w" "0 < h'" "0 < w'"
  shows "\<exists>a b a' b' oy ox.
           resize input_image real_image 542 542 = Inr (a, b)
         \<and> is_image 542 542 3 a \<and> is_image 542 542 3 b
         \<and> (\<forall>y < 542. \<forall>x < 542.
                a ! y ! x = input_image ! nn_index h 542 y ! nn_index w 542 x
              \<and> b ! y ! x = real_image ! nn_index h' 542 y ! nn_index w' 542 x)
         \<and> random_jitter rnd input_image real_image = Inr (a', b')
         \<and> is_image 512 512 3 a' \<and> is_image 512 512 3 b'
         \<and> oy = fst (snd (crop_draws rnd)) mod 31 \<and> ox = fst (snd (snd (crop_draws rnd))) mod 31
         \<and> (\<forall>y < 512. \<forall>x < 512.
                a' ! y ! x = a ! (oy + y) ! (ox + (if flip_draw rnd > 0.5 then 511 - x else x))
              \<and> b' ! y ! x = b ! (oy + y) ! (ox + (if flip_draw rnd > 0.5 then 511 - x else x)))
         \<and> (\<forall>n i. 0 < n \<and> n < 2 ^ 24 \<and> i < 542 \<longrightarrow>
                \<bar>real (nn_index n 542 i) + 1 / 2 - (real i + 1 / 2) * real n / 542\<bar>
                  \<le> 1 / 2 + 3 * real n / 2 ^ 24)"
proof -
  obtain d0 d1 d2 d3 where d: "crop_draws rnd = (d0, d1, d2, d3)"
    by (cases "crop_draws rnd") auto
  define ra where "ra = map (\<lambda>y. map (\<lambda>x. input_image ! nn_index h 542 y ! nn_index w 542 x) [0..<542]) [0..<542]"
  define rb where "rb = map (\<lambda>y. map (\<lambda>x. real_image ! nn_index h' 542 y ! nn_index w' 542 x) [0..<542]) [0..<542]"
  have r: "resize input_image real_image 542 542 = Inr (ra, rb)"
    unfolding ra_def rb_def resize_def
    using resize_nearest_ok [OF assms(1,3,4), of 542 542] resize_nearest_ok [OF assms(2,5,6), of 542 542]
    by (simp add: bind_err_def)
  have ia: "is_image 542 542 3 ra" and ib: "is_image 542 542 3 rb"
    unfolding ra_def rb_def using assms by (simp_all add: nearest_is_image)
  have px: "\<forall>y < 542. \<forall>x < 542.
              ra ! y ! x = input_image ! nn_index h 542 y ! nn_index w 542 x
            \<and> rb ! y ! x = real_image ! nn_index h' 542 y ! nn_index w' 542 x"
    unfolding ra_def rb_def by simp
  have j: "random_jitter rnd input_image real_image =
             Inr (jitter_one_spec rnd input_image, jitter_one_spec rnd real_image)"
    using assms by (rule random_jitter_unfold)
  have sa: "is_image 512 512 3 (jitter_one_spec rnd input_image)"
    using assms(1,3,4) by (rule jitter_one_spec_is_image)
  have sb: "is_image 512 512 3 (jitter_one_spec rnd real_image)"
    using assms(2,5,6) by (rule jitter_one_spec_is_image)
  have o: "d1 mod 31 = fst (snd (crop_draws rnd)) mod 31" "d2 mod 31 = fst (snd (snd (crop_draws rnd))) mod 31"
    by (simp_all add: d)
  have cr: "\<forall>y < 512. \<forall>x < 512.
              jitter_one_spec rnd input_image ! y ! x =
                ra ! (d1 mod 31 + y) ! (d2 mod 31 + (if flip_draw rnd > 0.5 then 511 - x else x))
            \<and> jitter_one_spec rnd real_image ! y ! x =
                rb ! (d1 mod 31 + y) ! (d2 mod 31 + (if flip_draw rnd > 0.5 then 511 - x else x))"
    using jitter_one_spec_nth [OF assms(1,3,4) d ra_def] jitter_one_spec_nth [OF assms(2,5,6) d rb_def]
    by blast
  have nn: "\<forall>n i. 0 < n \<and> n < 2 ^ 24 \<and> i < 542 \<longrightarrow>
              \<bar>real (nn_index n 542 i) + 1 / 2 - (real i + 1 / 2) * real n / 542\<bar>
                \<le> 1 / 2 + 3 * real n / 2 ^ 24"
  proof (intro allI impI)
    fix n i :: nat
    assume "0 < n \<and> n < 2 ^ 24 \<and> i < 542"
    then have "0 < n" "n < 2 ^ 24" "0 < (542 :: nat)" "(542 :: nat) \<le> 2 ^ 23" "i < 542"
      by simp_all
    from nn_index_nearest [OF this]
    show "\<bar>real (nn_index n 542 i) + 1 / 2 - (real i + 1 / 2) * real n / 542\<bar>
            \<le> 1 / 2 + 3 * real n / 2 ^ 24"
      by simp
  qed
  from r ia ib px j sa sb cr nn show ?thesis
    unfolding o by blast
qed

theorem random_jitter_shape_witness:
  "\<exists>a' b'. random_jitter \<lparr>crop_draws = (0, 17, 99, 0), flip_draw = 0.2\<rparr>
                          [[[1 :: nat, 2, 3]]] [[[4, 5, 6], [7, 8, 9]]] = Inr (a', b')
          \<and> is_image 512 512 3 a' \<and> is_image 512 512 3 b' \<and> a' ! 0 ! 0 = [1, 2, 3]"
proof -
  have i: "is_image 1 1 3 [[[1 :: nat, 2, 3]]]" "is_image 1 2 3 [[[4 :: nat, 5, 6], [7, 8, 9]]]"
    by (simp_all add: is_image_def)
  have z: "nn_index (Suc 0) 542 k = 0" for k
    by (simp add: nn_index_def)
  note t = random_jitter_shape [OF i zero_less_one zero_less_one zero_less_one zero_less_numeral,
      of "\<lparr>crop_draws = (0, 17, 99, 0), flip_draw = 0.2\<rparr>"]
  from t show ?thesis
    apply (elim exE conjE)
    subgoal for a b a' b' oy ox
      apply (rule exI [of _ a'], rule exI [of _ b'])
      apply (simp add: z)
      done
    done
qed

text \<open>
  Claim C3. In one call of the training augmentation the input and the target undergo
  one and the same geometric transform: the result is the pair of the images each
  transformed by \<open>jitter_one_spec\<close> with the draws of that call, that is, the same
  resize target, the same crop offset and the same flip decision (taken when the one
  uniform draw exceeds 0.5).
\<close>

theorem random_jitter_same_transform:
  assumes "is_image h w 3 input_image" "is_image h' w' 3 real_image"
    and "0 < h" "0 < w" "0 < h'" "0 < w'"
  shows "random_jitter rnd input_image real_image =
           Inr (jitter_one_spec rnd input_image, jitter_one_spec rnd real_image)"
  using assms by (rule random_jitter_unfold)

theorem random_jitter_same_transform_witness:
  "random_jitter \<lparr>crop_draws = (7, 40, 5, 2), flip_draw = 0.75\<rparr>
                 [[[1 :: nat, 2, 3], [4, 5, 6]]] [[[9, 9, 9]]] =
     Inr (jitter_one_spec \<lparr>crop_draws = (7, 40, 5, 2), flip_draw = 0.75\<rparr> [[[1, 2, 3], [4, 5, 6]]],
          jitter_one_spec \<lparr>crop_draws = (7, 40, 5, 2), flip_draw = 0.75\<rparr> [[[9, 9, 9]]])"
proof -
  have "is_image 1 2 3 [[[1 :: nat, 2, 3], [4, 5, 6]]]" "is_image 1 1 3 [[[9 :: nat, 9, 9]]]"
    by (simp_all add: is_image_def)
  from random_jitter_same_transform [OF this, of "\<lparr>crop_draws = (7, 40, 5, 2), flip_draw = 0.75\<rparr>"]
  show ?thesis
    by simp
qed

section \<open>Derived target path\<close>









section \<open>Loader\<close>

lemma load_cases:
  "load tf fs image_file =
     (case fs image_file of
        None \<Rightarrow> Inl (NotFoundError image_file)
      | Some c \<Rightarrow>
          (case decode_jpeg tf c of
             Inl e \<Rightarrow> Inl e
           | Inr i \<Rightarrow>
               (case fs (target_path image_file) of
                  None \<Rightarrow> Inl (NotFoundError (target_path image_file))
                | Some c' \<Rightarrow>
                    (case decode_jpeg tf c' of
                       Inl e \<Rightarrow> Inl e
                     | Inr t \<Rightarrow> Inr (cast_float32 i, cast_float32 t)))))"
  by (simp add: load_def read_file_def bind_err_def Let_def split: option.splits sum.splits)

text \<open>
  Claim C9. The loader decodes the target file, whose path ends in \<open>png\<close>, with
  \<^verbatim>\<open>decode_jpeg\<close>, the decoder it applies to the input file: the result does not depend
  on \<^verbatim>\<open>decode_png\<close>, the pair is loaded exactly when both files exist and
  \<^verbatim>\<open>decode_jpeg\<close> accepts the contents of both, and when \<^verbatim>\<open>decode_jpeg\<close> rejects the
  contents of the target file the loader raises that error.
\<close>

theorem load_target_decoder:
  "load (tf\<lparr>decode_png := d\<rparr>) fs image_file = load tf fs image_file
   \<and> (load tf fs image_file = Inr (a, b) \<longleftrightarrow>
        (\<exists>c c' i t. fs image_file = Some c \<and> decode_jpeg tf c = Inr i
                   \<and> fs (target_path image_file) = Some c' \<and> decode_jpeg tf c' = Inr t
                   \<and> a = cast_float32 i \<and> b = cast_float32 t))
   \<and> (\<forall>c i c' e. fs image_file = Some c \<and> decode_jpeg tf c = Inr i
                \<and> fs (target_path image_file) = Some c' \<and> decode_jpeg tf c' = Inl e
                \<longrightarrow> load tf fs image_file = Inl e)"
proof (intro conjI allI impI)
  show "load (tf\<lparr>decode_png := d\<rparr>) fs image_file = load tf fs image_file"
    by (simp add: load_def)
  show "load tf fs image_file = Inr (a, b) \<longleftrightarrow>
        (\<exists>c c' i t. fs image_file = Some c \<and> decode_jpeg tf c = Inr i
                   \<and> fs (target_path image_file) = Some c' \<and> decode_jpeg tf c' = Inr t
                   \<and> a = cast_float32 i \<and> b = cast_float32 t)"
    unfolding load_cases by (auto split: option.splits sum.splits)
  show "load tf fs image_file = Inl e"
    if "fs image_file = Some c \<and> decode_jpeg tf c = Inr i
        \<and> fs (target_path image_file) = Some c' \<and> decode_jpeg tf c' = Inl e" for c i c' e
    using that unfolding load_cases by simp
qed

theorem load_target_decoder_witness:
  "load \<lparr>decode_jpeg = (\<lambda>c. if c = [255, 216] then Inr [[[1, 2, 3]]] else Inl DecodeError),
         decode_png = (\<lambda>c. if c = [137, 80] then Inr [[[4, 5, 6]]] else Inl DecodeError),
         py_function_error = (\<lambda>e. e)\<rparr>
        [''input/a.jpg'' \<mapsto> [255, 216], ''output/a.png'' \<mapsto> [137, 80]] ''input/a.jpg''
     = Inl DecodeError"
proof -
  have t: "target_path ''input/a.jpg'' = ''output/a.png''"
    by (simp add: target_path_def str_replace.simps)
  from load_target_decoder
    [where tf = "\<lparr>decode_jpeg = (\<lambda>c. if c = [255, 216] then Inr [[[1, 2, 3]]] else Inl DecodeError),
                 decode_png = (\<lambda>c. if c = [137, 80] then Inr [[[4, 5, 6]]] else Inl DecodeError),
                 py_function_error = (\<lambda>e. e)\<rparr>"
       and fs = "[''input/a.jpg'' \<mapsto> [255, 216], ''output/a.png'' \<mapsto> [137, 80]]"
       and image_file = "''input/a.jpg''"]
  have "\<forall>c i c' e.
          [''input/a.jpg'' \<mapsto> [255, 216 :: nat], ''output/a.png'' \<mapsto> [137, 80]] ''input/a.jpg'' = Some c
        \<and> (if c = [255, 216] then Inr [[[1, 2, 3 :: nat]]] else Inl DecodeError) = Inr i
        \<and> [''input/a.jpg'' \<mapsto> [255, 216 :: nat], ''output/a.png'' \<mapsto> [137, 80]] ''output/a.png'' = Some c'
        \<and> (if c' = [255, 216] then Inr [[[1, 2, 3 :: nat]]] else Inl DecodeError) = Inl e
        \<longrightarrow> load \<lparr>decode_jpeg = (\<lambda>c. if c = [255, 216] then Inr [[[1, 2, 3]]] else Inl DecodeError),
                    decode_png = (\<lambda>c. if c = [137, 80] then Inr [[[4, 5, 6]]] else Inl DecodeError),
                    py_function_error = (\<lambda>e. e)\<rparr>
                   [''input/a.jpg'' \<mapsto> [255, 216], ''output/a.png'' \<mapsto> [137, 80]] ''input/a.jpg'' = Inl e"
    unfolding t by simp
  then show ?thesis
    by simp
qed

end
